theory Spec2Isabelle
  imports Main Complex_Main
begin

section \<open>Python values used by the chunker and the normalizer\<close>

text \<open>
  Python's \<open>str\<close> is a sequence of code points. The model uses \<open>string\<close>, one
  \<open>char\<close> per code point, so it covers the texts whose code points are below 256
  (Latin-1); the character classes below are Python's on that range. Python's \<open>int\<close>
  is unbounded and is modelled by \<open>int\<close>. The timestamps are Python floats that the
  chunker only copies, never computes with; they are modelled by \<open>real\<close>.
\<close>

datatype error = ValueError | IndexError | TypeError

definition isspace :: "char \<Rightarrow> bool" where
  \<comment> \<open>\<open>str.isspace\<close>, the class that \<open>str.strip()\<close> removes and that \<open>\s\<close> matches\<close>
  "isspace c = (of_char c \<in> {9, 10, 11, 12, 13, 28, 29, 30, 31, 32, 133, 160 :: nat})"

definition strip :: "string \<Rightarrow> string" where
  \<comment> \<open>\<open>s.strip()\<close>\<close>
  "strip s = rev (dropWhile isspace (rev (dropWhile isspace s)))"

definition slice :: "'a list \<Rightarrow> int \<Rightarrow> int \<Rightarrow> 'a list" where
  \<comment> \<open>\<open>xs[i:j]\<close>: a negative bound counts from the end, and both are clamped to the list\<close>
  "slice xs i j =
     (let n = int (length xs);
          lo = (if i < 0 then max (i + n) 0 else min i n);
          hi = (if j < 0 then max (j + n) 0 else min j n)
      in take (nat (hi - lo)) (drop (nat lo) xs))"

definition getitem :: "'a list \<Rightarrow> int \<Rightarrow> error + 'a" where
  \<comment> \<open>\<open>xs[i]\<close>: a negative index counts from the end, an index outside the list raises\<close>
  "getitem xs i =
     (if 0 \<le> i \<and> i < int (length xs) then Inr (xs ! nat i)
      else if i < 0 \<and> - int (length xs) \<le> i then Inr (xs ! nat (int (length xs) + i))
      else Inl IndexError)"

section \<open>schemas.py\<close>

record Segment =
  seg_id :: int
  seg_start :: real
  seg_end :: real
  seg_text :: string

record Chunk =
  chunk_id :: int
  chunk_text :: string
  chunk_start :: real
  chunk_end :: real
  segment_ids :: "int list"
  char_count :: int
  source_file :: "string option"

section \<open>chunk.py\<close>

record TextChunker =
  target_chars :: int
  overlap_chars :: int
  stride :: int

definition TextChunker_init :: "int \<Rightarrow> int \<Rightarrow> error + TextChunker" where
  \<comment> \<open>\<open>TextChunker.__init__\<close>\<close>
  "TextChunker_init target overlap =
     (if overlap \<ge> target then Inl ValueError
      else Inr \<lparr>target_chars = target, overlap_chars = overlap, stride = target - overlap\<rparr>)"

text \<open>
  The first loop of \<open>chunk_segments\<close>: every segment's text, followed by one space, is
  appended to \<open>full_text\<close>, and \<open>char_to_segment\<close> gets the segment once per
  appended character.
\<close>

fun combine_segments :: "Segment list \<Rightarrow> string \<Rightarrow> Segment list \<Rightarrow> string \<times> Segment list" where
  "combine_segments [] full_text char_to_segment = (full_text, char_to_segment)"
| "combine_segments (seg # segments) full_text char_to_segment =
     (let seg_text' = seg_text seg @ '' ''
      in combine_segments segments (full_text @ seg_text')
           (char_to_segment @ replicate (length seg_text') seg))"

text \<open>
  \<open>chunk_segments.add(seg)\<close> for a segment. \<open>schemas.py\<close> declares \<open>Segment\<close>
  as a pydantic \<open>BaseModel\<close> that is not frozen (\<open>cli.py\<close> assigns \<open>seg.text\<close>).
  Such a class defines \<open>__eq__\<close> and gets no \<open>__hash__\<close>, so its objects are
  unhashable and adding one to a set raises \<open>TypeError\<close>, whatever the set holds. The
  set is modelled by the list of its elements.
\<close>

definition set_add :: "Segment list \<Rightarrow> Segment \<Rightarrow> error + Segment list" where
  "set_add chunk_segments seg = Inl TypeError"

text \<open>
  The inner loop over \<open>range(start_char, min(end_char, len(char_to_segment)))\<close>: the
  segment at every index of the window is read and added to the set \<open>chunk_segments\<close>.
\<close>

fun window_segments :: "Segment list \<Rightarrow> Segment list \<Rightarrow> int list \<Rightarrow> error + Segment list" where
  "window_segments char_to_segment chunk_segments [] = Inr chunk_segments"
| "window_segments char_to_segment chunk_segments (i # is) =
     (if i < int (length char_to_segment) then
        (case getitem char_to_segment i of
           Inl e \<Rightarrow> Inl e
         | Inr seg \<Rightarrow>
            (case set_add chunk_segments seg of
               Inl e \<Rightarrow> Inl e
             | Inr chunk_segments' \<Rightarrow> window_segments char_to_segment chunk_segments' is))
      else window_segments char_to_segment chunk_segments is)"

text \<open>
  \<open>sorted(chunk_segments, key=lambda s: s.id)\<close>, a stable sort of the elements of the
  set; the set is empty whenever the loop gets here, since no segment can be added.
\<close>

definition sorted_by_id :: "Segment list \<Rightarrow> Segment list" where
  "sorted_by_id chunk_segments = sort_key seg_id chunk_segments"

text \<open>
  The chunk built inside \<open>if chunk_segments:\<close>, from the sorted segments of the
  window (a non-empty list there).
\<close>

definition new_chunk :: "int \<Rightarrow> string \<Rightarrow> Segment list \<Rightarrow> string option \<Rightarrow> Chunk" where
  "new_chunk cid text chunk_segments src =
     \<lparr>chunk_id = cid,
      chunk_text = text,
      chunk_start = seg_start (hd chunk_segments),
      chunk_end = seg_end (last chunk_segments),
      segment_ids = map seg_id chunk_segments,
      char_count = int (length text),
      source_file = src\<rparr>"

text \<open>
  The sliding-window loop. Its state is \<open>start_char\<close>, \<open>chunk_id\<close> and
  \<open>chunks\<close>; \<open>windows\<close> is a ghost variable that records the window
  \<open>(start_char, end_char)\<close> of every iteration the loop enters. The result is
  \<open>None\<close> when the loop runs forever, and otherwise the exception raised or the
  list returned, together with the windows entered.
\<close>

partial_function (option) chunk_loop ::
  "TextChunker \<Rightarrow> string \<Rightarrow> Segment list \<Rightarrow> string option \<Rightarrow>
   int \<Rightarrow> int \<Rightarrow> Chunk list \<Rightarrow> (int \<times> int) list \<Rightarrow>
   ((error + Chunk list) \<times> (int \<times> int) list) option" where
  "chunk_loop self full_text char_to_segment src start_char cid chunks windows =
     (if start_char < int (length full_text) then
        (let end_char = min (start_char + target_chars self) (int (length full_text));
             windows' = windows @ [(start_char, end_char)];
             text = strip (slice full_text start_char end_char)
         in if text = [] then Some (Inr chunks, windows')
            else
              (case window_segments char_to_segment []
                      [start_char .. min end_char (int (length char_to_segment)) - 1] of
                 Inl e \<Rightarrow> Some (Inl e, windows')
               | Inr members \<Rightarrow>
                  (let chunk_segments = sorted_by_id members;
                       chunks' = (if chunk_segments \<noteq> [] then
                                    chunks @ [new_chunk cid text chunk_segments src]
                                  else chunks);
                       cid' = (if chunk_segments \<noteq> [] then cid + 1 else cid)
                   in if end_char \<ge> int (length full_text) then Some (Inr chunks', windows')
                      else chunk_loop self full_text char_to_segment src
                             (start_char + stride self) cid' chunks' windows')))
      else Some (Inr chunks, windows))"

declare chunk_loop.simps [code]

definition chunk_run ::
  "TextChunker \<Rightarrow> Segment list \<Rightarrow> string option \<Rightarrow>
   ((error + Chunk list) \<times> (int \<times> int) list) option" where
  \<comment> \<open>the body of \<open>chunk_segments\<close> for a non-empty list, with the ghost windows\<close>
  "chunk_run self segments src =
     (case combine_segments segments [] [] of
        (full_text, char_to_segment) \<Rightarrow>
          chunk_loop self (strip full_text) char_to_segment src 0 0 [] [])"

definition chunk_segments ::
  "TextChunker \<Rightarrow> Segment list \<Rightarrow> string option \<Rightarrow> (error + Chunk list) option" where
  "chunk_segments self segments src =
     (if segments = [] then Some (Inr [])
      else map_option fst (chunk_run self segments src))"

definition chunk_windows ::
  "TextChunker \<Rightarrow> Segment list \<Rightarrow> string option \<Rightarrow> (int \<times> int) list option" where
  \<comment> \<open>the windows that the loop of \<open>chunk_segments\<close> enters\<close>
  "chunk_windows self segments src =
     (if segments = [] then Some []
      else map_option snd (chunk_run self segments src))"

text \<open>The stripped, space-joined text that the windows slide over.\<close>

definition full_text_of :: "Segment list \<Rightarrow> string" where
  "full_text_of segments = strip (fst (combine_segments segments [] []))"

text \<open>The transcripts and chunkers of \<open>tests/test_chunk.py\<close>, and two small ones.\<close>

definition test_segments :: "Segment list" where
  \<comment> \<open>\<open>create_test_segments()\<close>\<close>
  "test_segments =
     [\<lparr>seg_id = 0, seg_start = 0, seg_end = 5, seg_text = ''This is the first segment.''\<rparr>,
      \<lparr>seg_id = 1, seg_start = 5, seg_end = 10, seg_text = ''This is the second segment.''\<rparr>,
      \<lparr>seg_id = 2, seg_start = 10, seg_end = 15, seg_text = ''This is the third segment.''\<rparr>,
      \<lparr>seg_id = 3, seg_start = 15, seg_end = 20, seg_text = ''This is the fourth segment.''\<rparr>,
      \<lparr>seg_id = 4, seg_start = 20, seg_end = 25, seg_text = ''This is the fifth segment.''\<rparr>]"

definition test_chunker :: TextChunker where
  \<comment> \<open>\<open>TextChunker(target_chars=50, overlap_chars=10)\<close>\<close>
  "test_chunker = \<lparr>target_chars = 50, overlap_chars = 10, stride = 40\<rparr>"

definition single_segment :: "Segment list" where
  \<comment> \<open>the transcript of \<open>test_single_segment\<close>\<close>
  "single_segment = [\<lparr>seg_id = 0, seg_start = 0, seg_end = 5, seg_text = ''Short text.''\<rparr>]"







section \<open>normalize.py\<close>

definition FILLER_WORDS :: "string list" where
  "FILLER_WORDS =
     [''um'', ''uh'', ''hmm'', ''mhm'', ''uh-huh'', ''mm-hmm'',
      ''like'', ''you know'', ''i mean'', ''sort of'', ''kind of'']"

subsection \<open>The regular expressions of the module\<close>

text \<open>
  The module compiles patterns of one shape only, \<open>\b(t1|...|tn)\b\<close> with
  \<open>re.IGNORECASE\<close>, where every \<open>ti\<close> is an escaped term and so matches literally.
  A compiled pattern is modelled by the list of its alternatives, in order.
  \<open>is_word\<close> is the class \<open>\w\<close> and \<open>lower_char\<close> the lower-casing of one
  character, both as Python has them on the code points below 256.
\<close>

type_synonym pattern = "string list"

definition is_word :: "char \<Rightarrow> bool" where
  "is_word c =
     (let n = (of_char c :: nat)
      in (48 \<le> n \<and> n \<le> 57) \<or> (65 \<le> n \<and> n \<le> 90) \<or> n = 95 \<or> (97 \<le> n \<and> n \<le> 122) \<or>
         n = 170 \<or> n = 178 \<or> n = 179 \<or> n = 181 \<or> n = 185 \<or> n = 186 \<or>
         (188 \<le> n \<and> n \<le> 190) \<or> (192 \<le> n \<and> n \<le> 214) \<or> (216 \<le> n \<and> n \<le> 246) \<or>
         (248 \<le> n \<and> n \<le> 255))"

definition lower_char :: "char \<Rightarrow> char" where
  "lower_char c =
     (let n = (of_char c :: nat)
      in if (65 \<le> n \<and> n \<le> 90) \<or> (192 \<le> n \<and> n \<le> 214) \<or> (216 \<le> n \<and> n \<le> 222)
         then char_of (n + 32) else c)"

definition lower :: "string \<Rightarrow> string" where
  \<comment> \<open>\<open>s.lower()\<close>\<close>
  "lower s = map lower_char s"

definition create_pattern :: "string list \<Rightarrow> pattern" where
  \<comment> \<open>\<open>_create_pattern\<close>: joining no term at all leaves the one empty alternative of
      \<open>\b()\b\<close>\<close>
  "create_pattern terms = (if terms = [] then [[]] else terms)"

definition boundary :: "char option \<Rightarrow> string \<Rightarrow> bool" where
  \<comment> \<open>\<open>\b\<close> between the character before the position (if any) and the rest of the text\<close>
  "boundary prev rest =
     ((case prev of None \<Rightarrow> False | Some c \<Rightarrow> is_word c) \<noteq>
      (case rest of [] \<Rightarrow> False | c # _ \<Rightarrow> is_word c))"

definition alt_matches :: "char option \<Rightarrow> bool \<Rightarrow> string \<Rightarrow> string \<Rightarrow> bool" where
  \<comment> \<open>the alternative \<open>t\<close>, followed by \<open>\b\<close>, matches at the start of \<open>rest\<close>;
      \<open>must_advance\<close> rules out the empty match\<close>
  "alt_matches prev must_advance rest t =
     (length t \<le> length rest \<and>
      lower (take (length t) rest) = lower t \<and>
      boundary (if t = [] then prev else Some (last (take (length t) rest)))
               (drop (length t) rest) \<and>
      (if must_advance then t \<noteq> [] else True))"

definition match_here :: "pattern \<Rightarrow> char option \<Rightarrow> bool \<Rightarrow> string \<Rightarrow> string option" where
  \<comment> \<open>the match of the pattern that starts at this position: the first alternative that
      fits, as the backtracking matcher tries them in order\<close>
  "match_here alts prev must_advance rest =
     (if boundary prev rest then find (alt_matches prev must_advance rest) alts else None)"

text \<open>
  \<open>pattern.sub(repl, text)\<close>, from the position that has \<open>prev\<close> before it and
  \<open>rest\<close> after it. The leftmost match is replaced by \<open>repl\<close> of the matched text and the
  scan goes on behind it; after an empty match the next match must not be empty at the
  same position (\<open>must_advance\<close>); where nothing matches, the character is copied.
\<close>

function sub_from ::
  "pattern \<Rightarrow> (string \<Rightarrow> string) \<Rightarrow> char option \<Rightarrow> bool \<Rightarrow> string \<Rightarrow> string" where
  "sub_from alts repl prev must_advance rest =
     (case match_here alts prev must_advance rest of
        Some t \<Rightarrow>
          repl (take (length t) rest) @
          (if t = [] then sub_from alts repl prev True rest
           else sub_from alts repl (Some (last (take (length t) rest))) False
                  (drop (length t) rest))
      | None \<Rightarrow>
          (case rest of
             [] \<Rightarrow> []
           | c # cs \<Rightarrow> c # sub_from alts repl (Some c) False cs))"
  by pat_completeness auto
termination
proof (relation "measure (\<lambda>(alts, repl, prev, must_advance, rest).
                   2 * length rest + (if must_advance then 0 else 1))", goal_cases)
  case 1
  show ?case by simp
next
  case (2 alts repl prev must_advance rest c cs)
  then show ?case by simp
next
  case (3 alts repl prev must_advance rest t)
  then have "find (alt_matches prev must_advance rest) alts = Some t"
    by (simp add: match_here_def split: if_splits)
  then have "alt_matches prev must_advance rest t"
    by (auto simp: find_Some_iff)
  with 3 have "\<not> must_advance"
    by (auto simp: alt_matches_def split: if_splits)
  then show ?case by simp
next
  case (4 alts repl prev must_advance rest t)
  then have "find (alt_matches prev must_advance rest) alts = Some t"
    by (simp add: match_here_def split: if_splits)
  then have "alt_matches prev must_advance rest t"
    by (auto simp: find_Some_iff)
  then have "length t \<le> length rest"
    by (simp add: alt_matches_def)
  with 4 have "length (drop (length t) rest) < length rest"
    by (cases t) auto
  then show ?case by simp
qed

declare sub_from.simps [simp del]

definition sub :: "pattern \<Rightarrow> (string \<Rightarrow> string) \<Rightarrow> string \<Rightarrow> string" where
  "sub alts repl text = sub_from alts repl None False text"

text \<open>\<open>pattern.search(text) is not None\<close>: the pattern matches somewhere in the text.\<close>

fun search_from :: "pattern \<Rightarrow> char option \<Rightarrow> string \<Rightarrow> bool" where
  "search_from alts prev [] = (match_here alts prev False [] \<noteq> None)"
| "search_from alts prev (c # cs) =
     (match_here alts prev False (c # cs) \<noteq> None \<or> search_from alts (Some c) cs)"

definition search :: "pattern \<Rightarrow> string \<Rightarrow> bool" where
  "search alts text = search_from alts None text"

text \<open>
  \<open>re.sub(r'\s+', ' ', text)\<close>: every maximal run of whitespace becomes one space;
  \<open>in_run\<close> says that the character before belongs to a run already replaced.
\<close>

fun collapse_from :: "bool \<Rightarrow> string \<Rightarrow> string" where
  "collapse_from in_run [] = []"
| "collapse_from in_run (c # cs) =
     (if isspace c then (if in_run then collapse_from True cs
                         else CHR '' '' # collapse_from True cs)
      else c # collapse_from False cs)"

definition collapse_whitespace :: "string \<Rightarrow> string" where
  "collapse_whitespace text = collapse_from False text"

text \<open>The texts that \<open>collapse_from\<close> leaves: single spaces only, none after a run.\<close>

fun collapsed :: "bool \<Rightarrow> string \<Rightarrow> bool" where
  "collapsed in_run [] = True"
| "collapsed in_run (c # cs) =
     (if isspace c then c = CHR '' '' \<and> \<not> in_run \<and> collapsed True cs
      else collapsed False cs)"

subsection \<open>TextNormalizer\<close>

text \<open>
  The glossary is the dictionary that \<open>_load_glossary\<close> returns, as the list of its items
  in order; reading the file is outside the model, so the constructor takes the loaded
  dictionary.
\<close>

record TextNormalizer =
  glossary :: "(string \<times> string) list"
  remove_fillers :: bool
  glossary_pattern :: pattern
  filler_pattern :: "pattern option"

definition TextNormalizer_init :: "(string \<times> string) list \<Rightarrow> bool \<Rightarrow> TextNormalizer" where
  \<comment> \<open>\<open>sorted(keys, key=len, reverse=True)\<close> is a stable sort by descending length\<close>
  "TextNormalizer_init loaded fillers =
     \<lparr>glossary = loaded,
      remove_fillers = fillers,
      glossary_pattern = create_pattern (sort_key (\<lambda>k. - int (length k)) (map fst loaded)),
      filler_pattern = (if fillers then Some (create_pattern FILLER_WORDS) else None)\<rparr>"

fun replace_func :: "(string \<times> string) list \<Rightarrow> string \<Rightarrow> string" where
  "replace_func [] matched_text = matched_text"
| "replace_func ((key, val) # items) matched_text =
     (if lower key = lower matched_text then val else replace_func items matched_text)"

definition apply_glossary :: "TextNormalizer \<Rightarrow> string \<Rightarrow> string" where
  "apply_glossary self text = sub (glossary_pattern self) (replace_func (glossary self)) text"

definition remove_fillers_from :: "pattern \<Rightarrow> string \<Rightarrow> string" where
  \<comment> \<open>\<open>_remove_fillers\<close>, on the compiled filler pattern\<close>
  "remove_fillers_from fillers text = sub fillers (\<lambda>_. []) text"

text \<open>\<open>TextNormalizer.normalize\<close> (HOL has a constant \<open>normalize\<close> of its own).\<close>

definition normalize_str :: "TextNormalizer \<Rightarrow> string \<Rightarrow> string" where
  "normalize_str self text =
     (if text = [] then text
      else
        (let text1 = (if glossary self \<noteq> [] then apply_glossary self text else text);
             text2 = (case (remove_fillers self, filler_pattern self) of
                        (True, Some fillers) \<Rightarrow> remove_fillers_from fillers text1
                      | _ \<Rightarrow> text1)
         in strip (collapse_whitespace text2)))"

text \<open>What the claims call a text with glossary terms or filler words left in it.\<close>

definition contains_glossary_term :: "TextNormalizer \<Rightarrow> string \<Rightarrow> bool" where
  "contains_glossary_term self text = (glossary self \<noteq> [] \<and> search (glossary_pattern self) text)"

definition contains_filler :: "string \<Rightarrow> bool" where
  "contains_filler text = search (create_pattern FILLER_WORDS) text"


definition phrase_glossary :: "(string \<times> string) list" where
  "phrase_glossary = [(''tc pcm'', ''TcPCM'')]"


section \<open>Properties of the chunker\<close>

subsection \<open>Auxiliary facts\<close>

lemma length_strip_le: "length (strip s) \<le> length s"
proof -
  have "length (dropWhile isspace (rev (dropWhile isspace s))) \<le> length (dropWhile isspace s)"
    using length_dropWhile_le [of isspace "rev (dropWhile isspace s)"] by simp
  also have "\<dots> \<le> length s" by (rule length_dropWhile_le)
  finally show ?thesis by (simp add: strip_def)
qed

lemma combine_segments_length:
  "combine_segments segments full_text cts = (full_text', cts') \<Longrightarrow>
   length full_text = length cts \<Longrightarrow> length full_text' = length cts'"
  by (induction segments arbitrary: full_text cts) (auto simp: Let_def)

lemma dropWhile_snoc_keep:
  "\<not> P x \<Longrightarrow> \<exists>ys. dropWhile P (zs @ [x]) = ys @ [x]"
  by (induction zs) auto

lemma strip_cases:
  "strip s = [] \<or> (\<exists>x ys. strip s = x # ys \<and> \<not> isspace x)"
proof (cases "dropWhile isspace s")
  case Nil
  show ?thesis unfolding strip_def Nil by simp
next
  case (Cons x xs)
  then have nx: "\<not> isspace x"
    using hd_dropWhile [of isspace s] by simp
  from dropWhile_snoc_keep [where P = isspace and x = x and zs = "rev xs"] nx
  obtain ys where "dropWhile isspace (rev xs @ [x]) = ys @ [x]" by blast
  then have "strip s = x # rev ys"
    using Cons by (simp add: strip_def)
  with nx show ?thesis by blast
qed

lemma strip_eq_Nil_iff: "strip s = [] \<longleftrightarrow> (\<forall>c\<in>set s. isspace c)"
proof
  assume "strip s = []"
  then have "\<forall>c\<in>set (dropWhile isspace s). isspace c"
    by (simp add: strip_def dropWhile_eq_Nil_conv)
  then have "dropWhile isspace s = []"
    using hd_dropWhile [of isspace s] hd_in_set [of "dropWhile isspace s"] by blast
  then show "\<forall>c\<in>set s. isspace c"
    by (simp add: dropWhile_eq_Nil_conv)
next
  assume "\<forall>c\<in>set s. isspace c"
  then have d: "dropWhile isspace s = []"
    unfolding dropWhile_eq_Nil_conv .
  show "strip s = []"
    unfolding strip_def d by simp
qed

lemma combine_segments_text:
  "combine_segments segments full_text cts = (full_text', cts') \<Longrightarrow>
   set full_text \<union> (\<Union>seg\<in>set segments. set (seg_text seg)) \<subseteq> set full_text'"
proof (induction segments arbitrary: full_text cts)
  case Nil
  then show ?case by simp
next
  case (Cons seg segments)
  from Cons.prems have
    "combine_segments segments (full_text @ seg_text seg @ '' '')
       (cts @ replicate (length (seg_text seg @ '' '')) seg) = (full_text', cts')"
    by (simp add: Let_def)
  from Cons.IH [OF this] show ?case by auto
qed

lemma first_window_nonempty:
  assumes "strip s \<noteq> []" "0 < e"
  shows "strip (slice (strip s) 0 e) \<noteq> []"
proof -
  from strip_cases [of s] assms(1)
  obtain x ys where s: "strip s = x # ys" and nx: "\<not> isspace x" by blast
  have "x \<in> set (slice (strip s) 0 e)"
    using assms(2) by (cases "nat e") (auto simp: slice_def s Let_def min_def)
  with nx show ?thesis by (auto simp: strip_eq_Nil_iff)
qed


lemma TextChunker_init_fields:
  assumes "TextChunker_init target overlap = Inr self"
  shows "target_chars self = target" "overlap_chars self = overlap"
    "stride self = target - overlap" "overlap < target" "0 < stride self"
  using assms by (auto simp: TextChunker_init_def split: if_splits)


lemma window_segments_raises:
  assumes "0 \<le> start_char" "start_char < min end_char (int (length cts))"
  shows "window_segments cts []
           [start_char .. min end_char (int (length cts)) - 1] = Inl TypeError"
proof -
  have "[start_char .. min end_char (int (length cts)) - 1]
          = start_char # [start_char + 1 .. min end_char (int (length cts)) - 1]"
    using assms(2) by (subst upto_rec1) simp_all
  moreover have "getitem cts start_char = Inr (cts ! nat start_char)"
    using assms by (simp add: getitem_def)
  ultimately show ?thesis
    using assms(2) by (simp add: set_add_def)
qed




lemma chunk_run_raises:
  assumes init: "TextChunker_init target overlap = Inr self"
    and target: "0 < target"
    and nonblank: "\<exists>seg\<in>set segments. \<exists>c\<in>set (seg_text seg). \<not> isspace c"
  shows "chunk_run self segments src
           = Some (Inl TypeError, [(0, min target (int (length (full_text_of segments))))])"
proof -
  note f = TextChunker_init_fields [OF init]
  obtain ft cts where comb: "combine_segments segments [] [] = (ft, cts)"
    by (cases "combine_segments segments [] []")
  then have full: "full_text_of segments = strip ft" by (simp add: full_text_of_def)
  from combine_segments_length [OF comb] have len: "length ft = length cts" by simp
  from combine_segments_text [OF comb] nonblank have "\<exists>c\<in>set ft. \<not> isspace c" by auto
  then have sne: "strip ft \<noteq> []" by (simp add: strip_eq_Nil_iff)
  let ?n = "int (length (strip ft))"
  let ?e = "min (0 + target_chars self) ?n"
  have inside: "0 < ?n" using sne by simp
  have epos: "0 < ?e" using target inside f(1) by simp
  have tne: "strip (slice (strip ft) 0 ?e) \<noteq> []"
    by (rule first_window_nonempty [OF sne epos])
  have "0 < min ?e (int (length cts))"
    using epos inside length_strip_le [of ft] len by simp
  from window_segments_raises [OF _ this]
  have "chunk_loop self (strip ft) cts src 0 0 [] [] = Some (Inl TypeError, [(0, ?e)])"
    using inside tne by (subst chunk_loop.simps) (simp add: Let_def)
  then show ?thesis
    using comb by (simp add: chunk_run_def full f(1))
qed


lemma test_init: "TextChunker_init 50 10 = Inr test_chunker"
  by (simp add: TextChunker_init_def test_chunker_def)




lemma test_text_length: "int (length (full_text_of test_segments)) = 136"
  by code_simp

lemma not_isspace_letters:
  "\<not> isspace CHR ''T''" "\<not> isspace CHR ''S''" "\<not> isspace CHR ''A''"
  "\<not> isspace CHR ''h''" "\<not> isspace CHR ''a''"
  by (simp_all add: isspace_def)

subsection \<open>The claims about the chunker\<close>

text \<open>
  The code never gets to build a chunk: in the first window whose trimmed text is not
  empty, \<open>chunk_segments.add\<close> raises \<open>TypeError\<close> for the unhashable segment.
  The theorems below state this, in general and on the inputs of the tests in
  \<open>tests/test_chunk.py\<close>, which expect chunks.
\<close>


text \<open>
  C2. For a chunker that \<open>TextChunker.__init__\<close> returned with a positive
  \<open>target_chars\<close>, and a transcript with a character that is not whitespace, the loop
  enters the first window \<open>[0, min(target_chars, len(full_text)))\<close> only: it raises
  there. So a text longer than \<open>target_chars\<close> is not covered by the windows the
  loop goes through.
\<close>

theorem windows_first_only:
  assumes "TextChunker_init target overlap = Inr self"
    and "0 < target"
    and "\<exists>seg\<in>set segments. \<exists>c\<in>set (seg_text seg). \<not> isspace c"
  shows "chunk_windows self segments src
           = Some [(0, min target (int (length (full_text_of segments))))]"
proof -
  from assms(3) have "segments \<noteq> []" by auto
  with chunk_run_raises [OF assms, of src] show ?thesis
    by (simp add: chunk_windows_def)
qed

theorem windows_first_only_witness:
  "TextChunker_init 50 10 = Inr test_chunker \<and> (0::int) < 50 \<and>
   hd test_segments \<in> set test_segments \<and>
   CHR ''T'' \<in> set (seg_text (hd test_segments)) \<and> \<not> isspace CHR ''T'' \<and>
   int (length (full_text_of test_segments)) = 136 \<and>
   chunk_windows test_chunker test_segments None = Some [(0, 50)] \<and>
   \<not> ((0::int) \<le> 50 \<and> (50::int) < 50)"
proof -
  have "\<exists>seg\<in>set test_segments. \<exists>c\<in>set (seg_text seg). \<not> isspace c"
    by (simp add: test_segments_def not_isspace_letters)
  from windows_first_only [OF test_init _ this, of None] test_init test_text_length
  show ?thesis
    by (simp add: not_isspace_letters) (simp add: test_segments_def)
qed

text \<open>
  C3. For a chunker that \<open>TextChunker.__init__\<close> returned with a positive
  \<open>target_chars\<close>, and a transcript with a character that is not whitespace,
  \<open>chunk_segments\<close> does not return a list of chunks: it raises \<open>TypeError\<close>.
\<close>

theorem chunk_segments_raises:
  assumes "TextChunker_init target overlap = Inr self"
    and "0 < target"
    and "\<exists>seg\<in>set segments. \<exists>c\<in>set (seg_text seg). \<not> isspace c"
  shows "chunk_segments self segments src = Some (Inl TypeError)"
proof -
  from assms(3) have "segments \<noteq> []" by auto
  with chunk_run_raises [OF assms, of src] show ?thesis
    by (simp add: chunk_segments_def)
qed

theorem chunk_segments_raises_witness:
  "TextChunker_init 50 10 = Inr test_chunker \<and> (0::int) < 50 \<and>
   hd single_segment \<in> set single_segment \<and>
   CHR ''S'' \<in> set (seg_text (hd single_segment)) \<and> \<not> isspace CHR ''S'' \<and>
   chunk_segments test_chunker single_segment None = Some (Inl TypeError)"
proof -
  have "\<exists>seg\<in>set single_segment. \<exists>c\<in>set (seg_text seg). \<not> isspace c"
    by (simp add: single_segment_def not_isspace_letters)
  from chunk_segments_raises [OF test_init _ this, of None] test_init
  show ?thesis
    by (simp add: not_isspace_letters) (simp add: single_segment_def)
qed





text \<open>
  C6. On the empty list of segments \<open>chunk_segments\<close> returns the empty list of
  chunks, without an error.
\<close>

theorem chunk_empty_input: "chunk_segments self [] src = Some (Inr [])"
  by (simp add: chunk_segments_def)

text \<open>
  C4. \<open>TextChunker.__init__\<close> fails when \<open>overlap_chars >= target_chars\<close>, so no
  chunker exists to chunk with, and succeeds otherwise. The error that the specification
  calls \<open>ConfigurationError\<close> is the \<open>ValueError\<close> that the constructor raises.
\<close>

theorem init_validation:
  "(overlap \<ge> target \<longrightarrow> TextChunker_init target overlap = Inl ValueError) \<and>
   (overlap < target \<longrightarrow>
      TextChunker_init target overlap =
        Inr \<lparr>target_chars = target, overlap_chars = overlap, stride = target - overlap\<rparr>) \<and>
   TextChunker_init 50 50 = Inl ValueError \<and>
   TextChunker_init 50 60 = Inl ValueError"
  by (simp add: TextChunker_init_def)

theorem init_validation_witness:
  "(60::int) \<ge> 50 \<and> TextChunker_init 50 60 = Inl ValueError \<and>
   (10::int) < 50 \<and>
   TextChunker_init 50 10 = Inr \<lparr>target_chars = 50, overlap_chars = 10, stride = 40\<rparr>"
  using init_validation [of 50 60] init_validation [of 50 10]
  by simp

section \<open>Properties of the normalizer\<close>

subsection \<open>Auxiliary facts\<close>

lemma sub_from_no_match:
  "\<not> search_from alts prev rest \<Longrightarrow> sub_from alts repl prev False rest = rest"
proof (induction rest arbitrary: prev)
  case Nil
  then show ?case by (subst sub_from.simps) simp
next
  case (Cons c cs)
  then have "match_here alts prev False (c # cs) = None" "\<not> search_from alts (Some c) cs"
    by simp_all
  with Cons.IH [of "Some c"] show ?case by (subst sub_from.simps) simp
qed

lemma sub_no_match: "\<not> search alts text \<Longrightarrow> sub alts repl text = text"
  by (simp add: sub_def search_def sub_from_no_match)

lemma collapsed_collapse_from: "collapsed b (collapse_from b s)"
proof (induction s arbitrary: b)
  case Nil
  show ?case by simp
next
  case (Cons c cs)
  have sp: "isspace CHR '' ''" by (simp add: isspace_def)
  show ?case
  proof (cases "isspace c")
    case True
    show ?thesis
    proof (cases b)
      case True
      have "collapse_from True (c # cs) = collapse_from True cs"
        using \<open>isspace c\<close> by simp
      with Cons.IH [of True] True show ?thesis by simp
    next
      case False
      with \<open>isspace c\<close> sp Cons.IH [of True] show ?thesis by simp
    qed
  next
    case False
    with Cons.IH [of False] show ?thesis by simp
  qed
qed

lemma collapse_from_collapsed: "collapsed b s \<Longrightarrow> collapse_from b s = s"
  by (induction s arbitrary: b) (auto split: if_splits)

lemma collapsed_weaken: "collapsed b s \<Longrightarrow> collapsed False s"
  by (cases s) (auto split: if_splits)

lemma collapsed_suffix: "collapsed b (xs @ ys) \<Longrightarrow> collapsed False ys"
proof (induction xs arbitrary: b)
  case Nil
  then show ?case by (simp add: collapsed_weaken)
next
  case (Cons x xs)
  then show ?case by (auto split: if_splits)
qed

lemma collapsed_prefix: "collapsed b (xs @ ys) \<Longrightarrow> collapsed b xs"
  by (induction xs arbitrary: b) (auto split: if_splits)

lemma strip_infix: "\<exists>pre post. s = pre @ strip s @ post"
proof -
  let ?d = "dropWhile isspace s"
  have "rev (takeWhile isspace (rev ?d) @ dropWhile isspace (rev ?d)) = rev (rev ?d)"
    by (simp only: takeWhile_dropWhile_id)
  then have "rev (dropWhile isspace (rev ?d)) @ rev (takeWhile isspace (rev ?d)) = ?d"
    by (simp only: rev_append rev_rev_ident)
  then have d: "?d = strip s @ rev (takeWhile isspace (rev ?d))"
    by (simp only: strip_def)
  have "s = takeWhile isspace s @ ?d"
    by (simp only: takeWhile_dropWhile_id)
  with d have "s = takeWhile isspace s @ strip s @ rev (takeWhile isspace (rev ?d))"
    by simp
  then show ?thesis by blast
qed

lemma collapsed_strip: "collapsed b s \<Longrightarrow> collapsed False (strip s)"
proof -
  assume c: "collapsed b s"
  obtain pre post where "s = pre @ strip s @ post"
    using strip_infix [of s] by blast
  with c have "collapsed b (pre @ strip s @ post)" by simp
  then have "collapsed False (strip s @ post)" by (rule collapsed_suffix)
  then show ?thesis by (rule collapsed_prefix)
qed

lemma strip_ends:
  assumes "strip s \<noteq> []"
  shows "\<not> isspace (hd (strip s))" "\<not> isspace (last (strip s))"
proof -
  from strip_cases [of s] assms show "\<not> isspace (hd (strip s))" by auto
  have ne: "dropWhile isspace (rev (dropWhile isspace s)) \<noteq> []"
    using assms by (simp add: strip_def)
  have "last (strip s) = hd (dropWhile isspace (rev (dropWhile isspace s)))"
    using ne by (simp add: strip_def last_rev)
  with hd_dropWhile [OF ne] show "\<not> isspace (last (strip s))" by simp
qed

lemma dropWhile_id: "xs = [] \<or> \<not> P (hd xs) \<Longrightarrow> dropWhile P xs = xs"
  by (cases xs) auto

lemma strip_id:
  assumes "t = [] \<or> (\<not> isspace (hd t) \<and> \<not> isspace (last t))"
  shows "strip t = t"
proof (cases "t = []")
  case True
  then show ?thesis by (simp add: strip_def)
next
  case False
  with assms have h: "\<not> isspace (hd t)" and l: "\<not> isspace (last t)" by auto
  have d: "dropWhile isspace t = t"
    using h by (intro dropWhile_id) simp
  have "hd (rev t) = last t" using False by (simp add: hd_rev)
  then have r: "dropWhile isspace (rev t) = rev t"
    using l by (intro dropWhile_id) simp
  show ?thesis unfolding strip_def d r by simp
qed

lemma strip_strip: "strip (strip s) = strip s"
  using strip_ends [of s] by (intro strip_id) blast

lemma tidy_idem:
  "strip (collapse_whitespace (strip (collapse_whitespace text)))
     = strip (collapse_whitespace text)"
proof -
  have "collapsed False (strip (collapse_from False text))"
    using collapsed_collapse_from [where b = False and s = "text"] by (rule collapsed_strip)
  then have "collapse_from False (strip (collapse_from False text))
               = strip (collapse_from False text)"
    by (rule collapse_from_collapsed)
  then show ?thesis by (simp add: collapse_whitespace_def strip_strip)
qed

lemma normalize_tidy:
  "normalize_str self s = [] \<or> (\<exists>u. normalize_str self s = strip (collapse_whitespace u))"
  by (auto simp: normalize_str_def Let_def)




















lemma phrase_normalize_1:
  "normalize_str (TextNormalizer_init phrase_glossary True) ''tc pcm is great'' = ''TcPCM is great''"
  by code_simp

lemma phrase_normalize_2:
  "normalize_str (TextNormalizer_init phrase_glossary True) ''TcPCM is great'' = ''TcPCM is great''"
  by code_simp

lemma phrase_normalize_3:
  "\<not> contains_glossary_term (TextNormalizer_init phrase_glossary True) ''TcPCM is great''"
  by code_simp

lemma phrase_normalize_4:
  "\<not> contains_filler ''TcPCM is great''"
  by code_simp

lemmas phrase_normalize =
  phrase_normalize_1 phrase_normalize_2 phrase_normalize_3 phrase_normalize_4





subsection \<open>The claims about the normalizer\<close>



text \<open>
  C8. For a normalizer that the constructor returned: if the normalized form of a text
  has no match of the glossary pattern (no glossary term left) and no match of the filler
  pattern (no filler word left), normalizing it again returns it unchanged.
\<close>

theorem normalize_idempotent:
  assumes "self = TextNormalizer_init loaded fillers"
    and "\<not> contains_glossary_term self (normalize_str self text)"
    and "\<not> contains_filler (normalize_str self text)"
  shows "normalize_str self (normalize_str self text) = normalize_str self text"
proof (cases "normalize_str self text = []")
  case True
  then show ?thesis by (simp add: normalize_str_def)
next
  case False
  let ?n = "normalize_str self text"
  from normalize_tidy [where self = self and s = "text"] False
  obtain u where n: "?n = strip (collapse_whitespace u)" by blast
  have g: "(if glossary self \<noteq> [] then apply_glossary self ?n else ?n) = ?n"
    using assms(2) by (auto simp: contains_glossary_term_def apply_glossary_def sub_no_match)
  have fp: "filler_pattern self = None \<or>
            filler_pattern self = Some (create_pattern FILLER_WORDS)"
    using assms(1) by (simp add: TextNormalizer_init_def)
  have nf: "remove_fillers_from (create_pattern FILLER_WORDS) ?n = ?n"
    using assms(3) by (simp add: contains_filler_def remove_fillers_from_def sub_no_match)
  have f: "(case (remove_fillers self, filler_pattern self) of
              (True, Some fillers) \<Rightarrow> remove_fillers_from fillers ?n
            | _ \<Rightarrow> ?n) = ?n"
    using fp nf by (cases "remove_fillers self") auto
  have "normalize_str self ?n = strip (collapse_whitespace ?n)"
    using False by (subst normalize_str_def) (simp only: g f Let_def if_False)
  also have "\<dots> = ?n"
    unfolding n by (rule tidy_idem)
  finally show ?thesis .
qed

theorem normalize_idempotent_witness:
  "\<not> contains_glossary_term (TextNormalizer_init phrase_glossary True)
       (normalize_str (TextNormalizer_init phrase_glossary True) ''tc pcm is great'') \<and>
   \<not> contains_filler
       (normalize_str (TextNormalizer_init phrase_glossary True) ''tc pcm is great'') \<and>
   normalize_str (TextNormalizer_init phrase_glossary True) ''tc pcm is great'' = ''TcPCM is great'' \<and>
   normalize_str (TextNormalizer_init phrase_glossary True) ''TcPCM is great'' = ''TcPCM is great''"
  using normalize_idempotent [OF refl, of phrase_glossary True "''tc pcm is great''"]
    phrase_normalize
  by simp

end
